theory Spec2Isabelle
  imports Complex_Main
begin

section \<open>Spatial dimensionality\<close>

text \<open>
  The sources select the geometry at compile time through the macros
  \<open>WARPX_DIM_3D\<close>, \<open>WARPX_DIM_RZ\<close>, \<open>WARPX_DIM_XZ\<close> and \<open>WARPX_DIM_1D_Z\<close>.
  The model threads the selected mode through every function as a value.
  \<open>AMREX_SPACEDIM\<close> is 3 in 3-D, 2 in RZ and XZ, and 1 in 1-D.

  \<open>amrex::Real\<close> and \<open>amrex::ParticleReal\<close> are modelled by \<^typ>\<open>real\<close>: rounding,
  infinities and NaN are outside the model. C++ \<open>int\<close> and \<open>long\<close> are modelled by
  \<^typ>\<open>int\<close>; signed overflow (undefined behaviour in C++) is outside the model.
\<close>

datatype warpx_dim = DIM_3D | DIM_RZ | DIM_XZ | DIM_1D_Z

fun AMREX_SPACEDIM :: "warpx_dim \<Rightarrow> nat" where
  "AMREX_SPACEDIM DIM_3D = 3"
| "AMREX_SPACEDIM DIM_RZ = 2"
| "AMREX_SPACEDIM DIM_XZ = 2"
| "AMREX_SPACEDIM DIM_1D_Z = 1"


section \<open>Position samplers (InjectorPosition.H)\<close>

text \<open>\<open>amrex::XDim3\<close>: three reals. \<open>amrex::Dim3\<close>: three ints.\<close>

record XDim3 =
  comp_x :: real
  comp_y :: real
  comp_z :: real

record Dim3 =
  dim_x :: int
  dim_y :: int
  dim_z :: int

text \<open>
  \<open>amrex::RandomEngine\<close> with \<open>amrex::Random(engine)\<close>: the engine is modelled by
  the sequence of values that its successive draws return; \<open>engine k\<close> is the value of
  the \<open>k\<close>-th call of \<open>amrex::Random\<close> made by the sampler. The elements of a braced
  initialiser list are evaluated left to right.
\<close>

type_synonym RandomEngine = "nat \<Rightarrow> real"

text \<open>\<open>amrex::IntVect\<close>: \<open>AMREX_SPACEDIM\<close> ints, read with \<open>ref_fac[k]\<close>.\<close>

type_synonym IntVect = "int list"

text \<open>C++ integer division truncates toward zero.\<close>

definition cdiv :: "int \<Rightarrow> int \<Rightarrow> int" where
  "cdiv a b = sgn a * sgn b * (\<bar>a\<bar> div \<bar>b\<bar>)"

text \<open>\<open>InjectorPositionRandom::getPositionUnitBox\<close> (lines 19--29): no dependence on the mode.\<close>

definition InjectorPositionRandom_getPositionUnitBox ::
  "warpx_dim \<Rightarrow> int \<Rightarrow> IntVect \<Rightarrow> RandomEngine \<Rightarrow> XDim3" where
  "InjectorPositionRandom_getPositionUnitBox d i_part ref_fac engine =
     \<lparr>comp_x = engine 0, comp_y = engine 1, comp_z = engine 2\<rparr>"

text \<open>\<open>InjectorPositionRandomPlane::getPositionUnitBox\<close> (lines 33--63); \<open>dir\<close> is the member.\<close>

fun InjectorPositionRandomPlane_getPositionUnitBox ::
  "warpx_dim \<Rightarrow> int \<Rightarrow> int \<Rightarrow> IntVect \<Rightarrow> RandomEngine \<Rightarrow> XDim3" where
  "InjectorPositionRandomPlane_getPositionUnitBox DIM_3D dir i_part ref_fac engine =
     (if dir = 0 then \<lparr>comp_x = 0, comp_y = engine 0, comp_z = engine 1\<rparr>
      else if dir = 1 then \<lparr>comp_x = engine 0, comp_y = 0, comp_z = engine 1\<rparr>
      else \<lparr>comp_x = engine 0, comp_y = engine 1, comp_z = 0\<rparr>)"
| "InjectorPositionRandomPlane_getPositionUnitBox DIM_RZ dir i_part ref_fac engine =
     (if dir = 0 then \<lparr>comp_x = 0, comp_y = engine 0, comp_z = engine 1\<rparr>
      else if dir = 1 then \<lparr>comp_x = engine 0, comp_y = 0, comp_z = engine 1\<rparr>
      else \<lparr>comp_x = engine 0, comp_y = engine 1, comp_z = 0\<rparr>)"
| "InjectorPositionRandomPlane_getPositionUnitBox DIM_XZ dir i_part ref_fac engine =
     (if dir = 0 then \<lparr>comp_x = 0, comp_y = engine 0, comp_z = 0\<rparr>
      else if dir = 1 then \<lparr>comp_x = engine 0, comp_y = engine 1, comp_z = 0\<rparr>
      else \<lparr>comp_x = engine 0, comp_y = 0, comp_z = 0\<rparr>)"
| "InjectorPositionRandomPlane_getPositionUnitBox DIM_1D_Z dir i_part ref_fac engine =
     (if dir = 0 then \<lparr>comp_x = engine 0, comp_y = 0, comp_z = 0\<rparr>
      else if dir = 1 then \<lparr>comp_x = engine 0, comp_y = 0, comp_z = 0\<rparr>
      else \<lparr>comp_x = 0, comp_y = 0, comp_z = 0\<rparr>)"

text \<open>
  \<open>InjectorPositionRegular::getPositionUnitBox\<close> (lines 67--111); \<open>ppc\<close> is the member.
  The lattice counts per mode are lines 83--99. The integer divisions of lines 100--101
  are undefined for a zero divisor, and the floating divisions of lines 104--106 by a zero
  count give an infinity or a NaN, which \<^typ>\<open>real\<close> does not have: both are the value
  \<open>None\<close> of the model.
\<close>

fun regular_counts :: "warpx_dim \<Rightarrow> Dim3 \<Rightarrow> IntVect \<Rightarrow> int \<times> int \<times> int" where
  "regular_counts DIM_3D ppc ref_fac =
     (ref_fac ! 0 * dim_x ppc, ref_fac ! 1 * dim_y ppc, ref_fac ! 2 * dim_z ppc)"
| "regular_counts DIM_RZ ppc ref_fac =
     (ref_fac ! 0 * dim_x ppc, ref_fac ! 1 * dim_y ppc, dim_z ppc)"
| "regular_counts DIM_XZ ppc ref_fac =
     (ref_fac ! 0 * dim_x ppc, ref_fac ! 1 * dim_y ppc, 1)"
| "regular_counts DIM_1D_Z ppc ref_fac =
     (ref_fac ! 0 * dim_x ppc, 1, 1)"

definition InjectorPositionRegular_getPositionUnitBox ::
  "warpx_dim \<Rightarrow> Dim3 \<Rightarrow> int \<Rightarrow> IntVect \<Rightarrow> RandomEngine \<Rightarrow> XDim3 option" where
  "InjectorPositionRegular_getPositionUnitBox d ppc i_part ref_fac engine =
     (case regular_counts d ppc ref_fac of (nx, ny, nz) \<Rightarrow>
        if ny * nz = 0 \<or> ny = 0 \<or> nx = 0 \<or> nz = 0 then None
        else
          let ix_part = cdiv i_part (ny * nz);
              iz_part = cdiv (i_part - ix_part * (ny * nz)) ny;
              iy_part = (i_part - ix_part * (ny * nz)) - ny * iz_part
          in Some \<lparr>comp_x = (0.5 + real_of_int ix_part) / real_of_int nx,
                   comp_y = (0.5 + real_of_int iy_part) / real_of_int ny,
                   comp_z = (0.5 + real_of_int iz_part) / real_of_int nz\<rparr>)"

text \<open>
  \<open>InjectorPosition\<close> (lines 120--256): the type tag together with the union \<open>Object\<close>
  is a datatype; the six bounds are fields of the record.
\<close>

datatype Object = random | randomplane int | regular Dim3

record InjectorPosition =
  object :: Object
  xmin :: real
  xmax :: real
  ymin :: real
  ymax :: real
  zmin :: real
  zmax :: real

text \<open>\<open>InjectorPosition::getPositionUnitBox\<close> (lines 171--192): the dispatch on the tag.\<close>

definition getPositionUnitBox ::
  "warpx_dim \<Rightarrow> InjectorPosition \<Rightarrow> int \<Rightarrow> IntVect \<Rightarrow> RandomEngine \<Rightarrow> XDim3 option" where
  "getPositionUnitBox d ip i_part ref_fac engine =
     (case object ip of
        regular ppc \<Rightarrow> InjectorPositionRegular_getPositionUnitBox d ppc i_part ref_fac engine
      | randomplane dir \<Rightarrow>
          Some (InjectorPositionRandomPlane_getPositionUnitBox d dir i_part ref_fac engine)
      | random \<Rightarrow> Some (InjectorPositionRandom_getPositionUnitBox d i_part ref_fac engine))"

text \<open>\<open>InjectorPosition::insideBounds\<close> (lines 199--207).\<close>

definition insideBounds :: "InjectorPosition \<Rightarrow> real \<Rightarrow> real \<Rightarrow> real \<Rightarrow> bool" where
  "insideBounds ip px py pz =
     (px < xmax ip \<and> px \<ge> xmin ip \<and>
      py < ymax ip \<and> py \<ge> ymin ip \<and>
      pz < zmax ip \<and> pz \<ge> zmin ip)"

text \<open>\<open>InjectorPosition::insideBoundsInclusive\<close> (lines 214--222).\<close>

definition insideBoundsInclusive :: "InjectorPosition \<Rightarrow> real \<Rightarrow> real \<Rightarrow> real \<Rightarrow> bool" where
  "insideBoundsInclusive ip px py pz =
     (px \<le> xmax ip \<and> px \<ge> xmin ip \<and>
      py \<le> ymax ip \<and> py \<ge> ymin ip \<and>
      pz \<le> zmax ip \<and> pz \<ge> zmin ip)"

text \<open>\<open>InjectorPosition::overlapsWith\<close> (lines 225--233).\<close>

definition overlapsWith :: "InjectorPosition \<Rightarrow> XDim3 \<Rightarrow> XDim3 \<Rightarrow> bool" where
  "overlapsWith ip lo hi =
     (\<not> ((xmin ip > comp_x hi) \<or> (xmax ip < comp_x lo)
        \<or> (ymin ip > comp_y hi) \<or> (ymax ip < comp_y lo)
        \<or> (zmin ip > comp_z hi) \<or> (zmax ip < comp_z lo)))"

text \<open>
  The components of the returned \<open>XDim3\<close> that carry no coordinate in a mode, after the
  comments of lines 45, 50 and 55: in 3-D and in RZ all three components are used
  (x, y, z and r, theta, z); in XZ the first two; in 1-D only the first.
\<close>

fun collapsed :: "warpx_dim \<Rightarrow> nat \<Rightarrow> bool" where
  "collapsed DIM_3D k = False"
| "collapsed DIM_RZ k = False"
| "collapsed DIM_XZ k = (k = 2)"
| "collapsed DIM_1D_Z k = (k = 1 \<or> k = 2)"

definition component :: "XDim3 \<Rightarrow> nat \<Rightarrow> real" where
  "component p k = (if k = 0 then comp_x p else if k = 1 then comp_y p else comp_z p)"


section \<open>Position integrators (UpdatePosition.H)\<close>

text \<open>
  \<open>PhysConst::c\<close> is declared in \<open>Utils/WarpXConst.H\<close>, whose source is not available,
  so the speed of light is the parameter \<open>c\<close>. The three positions are passed by reference in
  the source; the model returns the updated triple.
\<close>

definition UpdatePosition ::
  "warpx_dim \<Rightarrow> real \<Rightarrow> real \<times> real \<times> real \<Rightarrow> real \<Rightarrow> real \<Rightarrow> real \<Rightarrow> real \<Rightarrow> real \<times> real \<times> real" where
  "UpdatePosition d c pos ux uy uz dt =
     (case pos of (px, py, pz) \<Rightarrow>
        let inv_c2 = 1 / (c * c);
            inv_gamma = 1 / sqrt (1 + (ux * ux + uy * uy + uz * uz) * inv_c2);
            px' = (if AMREX_SPACEDIM d \<ge> 2 then px + ux * inv_gamma * dt else px);
            py' = (if d = DIM_3D \<or> d = DIM_RZ then py + uy * inv_gamma * dt else py);
            pz' = pz + uz * inv_gamma * dt
        in (px', py', pz'))"

definition UpdatePositionImplicit ::
  "warpx_dim \<Rightarrow> real \<Rightarrow> real \<times> real \<times> real \<Rightarrow> real \<Rightarrow> real \<Rightarrow> real \<Rightarrow> real \<Rightarrow> real \<Rightarrow> real \<Rightarrow> real
     \<Rightarrow> real \<times> real \<times> real" where
  "UpdatePositionImplicit d c pos ux_n uy_n uz_n ux uy uz dt =
     (case pos of (px, py, pz) \<Rightarrow>
        let inv_c2 = 1 / (c * c);
            ux_np1 = 2 * ux - ux_n;
            uy_np1 = 2 * uy - uy_n;
            uz_np1 = 2 * uz - uz_n;
            gamma_n = sqrt (1 + (ux_n * ux_n + uy_n * uy_n + uz_n * uz_n) * inv_c2);
            gamma_np1 = sqrt (1 + (ux_np1 * ux_np1 + uy_np1 * uy_np1 + uz_np1 * uz_np1) * inv_c2);
            inv_gamma = 2 / (gamma_n + gamma_np1);
            px' = (if AMREX_SPACEDIM d \<ge> 2 then px + ux * inv_gamma * dt else px);
            py' = (if d = DIM_3D \<or> d = DIM_RZ then py + uy * inv_gamma * dt else py);
            pz' = pz + uz * inv_gamma * dt
        in (px', py', pz'))"


section \<open>Partition of the particles of a tile (Partition.cpp)\<close>

text \<open>
  A mask pointer \<open>iMultiFab const*\<close> is an address or \<open>nullptr\<close> (\<open>None\<close>); the
  source compares these pointers (lines 98 and 115), so the model keeps the addresses
  and reads the masks through a memory \<open>mem\<close> from addresses to mask arrays. A mask
  array gives the integer flag of each cell of the tile's box. The particle tile is the
  list of its particles (one row of all attribute arrays per particle); the geometry
  \<open>Geom lev\<close> gives the cell of a particle at level \<open>lev\<close>.
\<close>

datatype error = NullMask | OutOfBounds

type_synonym 'c iMultiFab = "'c \<Rightarrow> int"

type_synonym mask_ptr = "nat option"

text \<open>
  The static members \<open>WarpX::n_current_deposition_buffer\<close> and
  \<open>WarpX::n_field_gather_buffer\<close> and the container members
  \<open>m_deposit_on_main_grid\<close> and \<open>m_gather_from_main_grid\<close> that the function reads.
\<close>

record settings =
  n_current_deposition_buffer :: int
  n_field_gather_buffer :: int
  m_deposit_on_main_grid :: bool
  m_gather_from_main_grid :: bool

text \<open>
  Modelled from the spec: \<open>fillWithConsecutiveIntegers\<close> of \<open>SortingUtils.H\<close>, whose
  source is not available. The permutation starts as the identity on \<open>[0,np)\<close>, the
  size of the vector.
\<close>

definition fillWithConsecutiveIntegers :: "nat list \<Rightarrow> nat list" where
  "fillWithConsecutiveIntegers v = [0..<length v]"

text \<open>
  Modelled from the spec: \<open>fillBufferFlag\<close> of \<open>SortingUtils.H\<close> (the BufferClassifier of
  section 4.4), whose source is not available. For each particle \<open>i < np\<close> it resolves
  the cell of the particle and stores the mask value of that cell in \<open>inexflag[i]\<close>; the
  loop of \<open>amrex::ParallelFor\<close> writes each index once, so its order does not matter.
  Reading through a null mask pointer, or reading a particle beyond the end of the tile,
  has no defined result in C++: both are errors of the model.
\<close>

definition fillBufferFlag ::
  "'p list \<Rightarrow> mask_ptr \<Rightarrow> int list \<Rightarrow> ('p \<Rightarrow> 'c) \<Rightarrow> (nat \<Rightarrow> 'c iMultiFab) \<Rightarrow> nat
     \<Rightarrow> error + int list" where
  "fillBufferFlag pti bmasks inexflag geom mem np =
     (case bmasks of
        None \<Rightarrow> Inl NullMask
      | Some a \<Rightarrow>
          if np > length pti then Inl OutOfBounds
          else Inr (fold (\<lambda>i fl. fl[i := mem a (geom (pti ! i))]) [0..<np] inexflag))"

text \<open>
  Modelled from the spec: \<open>fillBufferFlagRemainingParticles\<close> of \<open>SortingUtils.H\<close>,
  whose source is not available. For each of the \<open>n\<close> positions \<open>i + start_index\<close> of the
  permutation it takes the particle \<open>pid[i + start_index]\<close> and stores the mask value of
  its cell in \<open>inexflag\<close> at the index of that particle. In the call of lines 111--112
  every position read and every index written is in range (lemma \<open>second_pass\<close>).
\<close>

definition fillBufferFlagRemainingParticles ::
  "'p list \<Rightarrow> mask_ptr \<Rightarrow> int list \<Rightarrow> ('p \<Rightarrow> 'c) \<Rightarrow> (nat \<Rightarrow> 'c iMultiFab) \<Rightarrow> nat list
     \<Rightarrow> nat \<Rightarrow> nat \<Rightarrow> error + int list" where
  "fillBufferFlagRemainingParticles pti bmasks inexflag geom mem pid start_index n =
     (case bmasks of
        None \<Rightarrow> Inl NullMask
      | Some a \<Rightarrow>
          Inr (fold (\<lambda>i fl. fl[pid ! (i + start_index)
                               := mem a (geom (pti ! (pid ! (i + start_index))))])
                 [0..<n] inexflag))"

text \<open>
  Modelled from the spec: \<open>stablePartition\<close> of \<open>SortingUtils.H\<close>, whose source is not
  available. It reorders the segment \<open>[index_begin, index_end)\<close> of the permutation: the
  indices of the particles of the fine patch move to the front of the segment and those
  of the particles of the buffer to its back, each group keeping its relative order; it
  returns the position that separates the two groups. The flag of index \<open>i\<close> is
  \<open>predicate[i]\<close>, an \<open>int\<close> read as a truth value: a set flag puts the index in front,
  which is the fine patch by the comment of lines 80--83.
\<close>

definition stablePartition :: "nat list \<Rightarrow> nat \<Rightarrow> nat \<Rightarrow> int list \<Rightarrow> nat list \<times> nat" where
  "stablePartition pid index_begin index_end predicate =
     (let seg = take (index_end - index_begin) (drop index_begin pid);
          front = filter (\<lambda>i. predicate ! i \<noteq> 0) seg;
          back = filter (\<lambda>i. \<not> predicate ! i \<noteq> 0) seg
      in (take index_begin pid @ front @ back @ drop index_end pid,
          index_begin + length front))"

text \<open>
  Modelled from the spec: \<open>amrex::gatherParticles\<close> followed by the swap of the tiles
  (the TileReorderer of section 4.6): slot \<open>k\<close> of the new tile of \<open>np\<close> particles holds the
  particle that was at slot \<open>inds[k]\<close>.
\<close>

definition gatherParticles :: "'p list \<Rightarrow> nat \<Rightarrow> nat list \<Rightarrow> 'p list" where
  "gatherParticles src np inds = map (\<lambda>k. src ! (inds ! k)) [0..<np]"

text \<open>
  Lines 61--121 of \<open>PartitionParticlesInBuffers\<close>: the computation of the permutation
  \<open>pid\<close> and of the two counts. \<open>nfine_current\<close> and \<open>nfine_gather\<close> are references in
  the source: their incoming values are arguments and their values at line 121 are
  returned, next to \<open>pid\<close>. The freshly resized vectors hold zeros here; every entry
  is written before it is read.
\<close>

definition partition_indices ::
  "settings \<Rightarrow> (nat \<Rightarrow> 'c iMultiFab) \<Rightarrow> (int \<Rightarrow> 'p \<Rightarrow> 'c) \<Rightarrow> int \<Rightarrow> int \<Rightarrow> nat \<Rightarrow> 'p list \<Rightarrow> int
     \<Rightarrow> mask_ptr \<Rightarrow> mask_ptr \<Rightarrow> error + (nat list \<times> int \<times> int)" where
  "partition_indices st mem Geom nfine_current nfine_gather np pti lev current_masks gather_masks =
     (let inexflag = replicate np 0;
          pid = replicate np 0;
          bmasks = (if n_field_gather_buffer st \<ge> n_current_deposition_buffer st
                    then gather_masks else current_masks)
      in case fillBufferFlag pti bmasks inexflag (Geom lev) mem np of
           Inl e \<Rightarrow> Inl e
         | Inr inexflag \<Rightarrow>
             let pid = fillWithConsecutiveIntegers pid;
                 (pid, sep) = stablePartition pid 0 (length pid) inexflag;
                 n_fine = int sep
             in if n_current_deposition_buffer st = n_field_gather_buffer st
                then Inr (pid, int sep, int sep)
                else if sep = length pid
                then Inr (pid, int np, int np)
                else
                  let (nfine_current, nfine_gather, bmasks, n_buf) =
                        (if bmasks = gather_masks
                         then (nfine_current, n_fine, current_masks,
                               n_current_deposition_buffer st)
                         else (n_fine, nfine_gather, gather_masks,
                               n_field_gather_buffer st))
                  in if n_buf > 0
                     then
                       (case fillBufferFlagRemainingParticles pti bmasks inexflag (Geom lev)
                               mem pid sep (np - sep) of
                          Inl e \<Rightarrow> Inl e
                        | Inr inexflag \<Rightarrow>
                            let (pid, sep2) = stablePartition pid sep (length pid) inexflag
                            in if bmasks = gather_masks
                               then Inr (pid, nfine_current, int sep2)
                               else Inr (pid, int sep2, nfine_gather))
                     else Inr (pid, nfine_current, nfine_gather))"

text \<open>
  What the call leaves behind: the two counts, the tile, and the number of gather
  passes made over the tile.
\<close>

record 'p partitioned =
  fine_current :: int
  fine_gather :: int
  ptile :: "'p list"
  gather_passes :: nat

text \<open>
  \<open>PhysicalParticleContainer::PartitionParticlesInBuffers\<close> (lines 52--151): lines
  61--121 as above, the overrides of lines 123--129 and the reordering of lines 131--147.
\<close>

definition PartitionParticlesInBuffers ::
  "settings \<Rightarrow> (nat \<Rightarrow> 'c iMultiFab) \<Rightarrow> (int \<Rightarrow> 'p \<Rightarrow> 'c) \<Rightarrow> int \<Rightarrow> int \<Rightarrow> nat \<Rightarrow> 'p list \<Rightarrow> int
     \<Rightarrow> mask_ptr \<Rightarrow> mask_ptr \<Rightarrow> error + 'p partitioned" where
  "PartitionParticlesInBuffers st mem Geom nfine_current nfine_gather np pti lev
       current_masks gather_masks =
     (case partition_indices st mem Geom nfine_current nfine_gather np pti lev
             current_masks gather_masks of
        Inl e \<Rightarrow> Inl e
      | Inr (pid, nfine_current, nfine_gather) \<Rightarrow>
          let nfine_current = (if m_deposit_on_main_grid st \<and> lev > 0 then 0 else nfine_current);
              nfine_gather = (if m_gather_from_main_grid st \<and> lev > 0 then 0 else nfine_gather)
          in if nfine_current \<noteq> int np \<or> nfine_gather \<noteq> int np
             then Inr \<lparr>fine_current = nfine_current, fine_gather = nfine_gather,
                       ptile = gatherParticles pti np pid, gather_passes = 1\<rparr>
             else Inr \<lparr>fine_current = nfine_current, fine_gather = nfine_gather,
                       ptile = pti, gather_passes = 0\<rparr>)"

text \<open>
  The classification of particle \<open>i\<close> of the tile against a mask array: the particle is in
  the fine patch when the flag of its cell is set.
\<close>

definition fine :: "'c iMultiFab \<Rightarrow> ('p \<Rightarrow> 'c) \<Rightarrow> 'p list \<Rightarrow> nat \<Rightarrow> bool" where
  "fine m geom pti i = (m (geom (pti ! i)) \<noteq> 0)"


text \<open>
  The classification against the mask that a pointer refers to. A null pointer stands
  for a disabled buffer, which marks no particle as buffer.
\<close>

definition mask_fine ::
  "(nat \<Rightarrow> 'c iMultiFab) \<Rightarrow> ('p \<Rightarrow> 'c) \<Rightarrow> 'p list \<Rightarrow> mask_ptr \<Rightarrow> nat \<Rightarrow> bool" where
  "mask_fine mem geom pti ptr i = (case ptr of None \<Rightarrow> True | Some a \<Rightarrow> fine (mem a) geom pti i)"

text \<open>
  The mask of the first pass (line 70), the mask and the width of the other buffer kind.
\<close>

definition primary_mask :: "settings \<Rightarrow> mask_ptr \<Rightarrow> mask_ptr \<Rightarrow> mask_ptr" where
  "primary_mask st current_masks gather_masks =
     (if n_field_gather_buffer st \<ge> n_current_deposition_buffer st
      then gather_masks else current_masks)"

definition other_mask :: "settings \<Rightarrow> mask_ptr \<Rightarrow> mask_ptr \<Rightarrow> mask_ptr" where
  "other_mask st current_masks gather_masks =
     (if n_field_gather_buffer st \<ge> n_current_deposition_buffer st
      then current_masks else gather_masks)"

definition other_width :: "settings \<Rightarrow> int" where
  "other_width st =
     (if n_field_gather_buffer st \<ge> n_current_deposition_buffer st
      then n_current_deposition_buffer st else n_field_gather_buffer st)"


text \<open>
  The two classifications of a particle index that a call can make. The primary one is
  against the mask of the first pass. The other one is against the mask of the other
  buffer kind; a kind whose width is not positive is disabled and marks no particle as
  buffer (section 4.4 of the specification), and neither does a null mask.
\<close>

definition primary_fine ::
  "settings \<Rightarrow> (nat \<Rightarrow> 'c iMultiFab) \<Rightarrow> ('p \<Rightarrow> 'c) \<Rightarrow> 'p list \<Rightarrow> mask_ptr \<Rightarrow> mask_ptr \<Rightarrow> nat \<Rightarrow> bool" where
  "primary_fine st mem geom pti current_masks gather_masks i =
     mask_fine mem geom pti (primary_mask st current_masks gather_masks) i"

definition other_fine ::
  "settings \<Rightarrow> (nat \<Rightarrow> 'c iMultiFab) \<Rightarrow> ('p \<Rightarrow> 'c) \<Rightarrow> 'p list \<Rightarrow> mask_ptr \<Rightarrow> mask_ptr \<Rightarrow> nat \<Rightarrow> bool" where
  "other_fine st mem geom pti current_masks gather_masks i =
     (other_width st \<le> 0 \<or> mask_fine mem geom pti (other_mask st current_masks gather_masks) i)"

text \<open>
  The output segment of a particle index: 0 for the front segment of the first pass (the
  particles that the primary mask marks fine); for the particles of the back segment, 1
  for those that the other kind marks fine when the widths differ, and 2 for the rest.
  With equal widths the back segment is one segment.
\<close>

definition segment ::
  "settings \<Rightarrow> (nat \<Rightarrow> 'c iMultiFab) \<Rightarrow> ('p \<Rightarrow> 'c) \<Rightarrow> 'p list \<Rightarrow> mask_ptr \<Rightarrow> mask_ptr \<Rightarrow> nat \<Rightarrow> nat" where
  "segment st mem geom pti current_masks gather_masks i =
     (if primary_fine st mem geom pti current_masks gather_masks i then 0
      else if n_current_deposition_buffer st \<noteq> n_field_gather_buffer st
              \<and> other_fine st mem geom pti current_masks gather_masks i then 1
      else 2)"


section \<open>Concrete inputs\<close>

text \<open>An engine whose every draw is one half, and two lattices.\<close>

definition engine_half :: RandomEngine where
  "engine_half k = 1 / 2"

definition ppc_111 :: Dim3 where
  "ppc_111 = \<lparr>dim_x = 1, dim_y = 1, dim_z = 1\<rparr>"

definition ppc_222 :: Dim3 where
  "ppc_222 = \<lparr>dim_x = 2, dim_y = 2, dim_z = 2\<rparr>"

text \<open>The region \<open>[0,1]\<^sup>3\<close>, and a box that touches it on the face \<open>x = 0\<close> only.\<close>

definition unit_region :: InjectorPosition where
  "unit_region = \<lparr>object = random, xmin = 0, xmax = 1, ymin = 0, ymax = 1, zmin = 0, zmax = 1\<rparr>"

definition left_lo :: XDim3 where
  "left_lo = \<lparr>comp_x = - 1, comp_y = 0, comp_z = 0\<rparr>"

definition left_hi :: XDim3 where
  "left_hi = \<lparr>comp_x = 0, comp_y = 1, comp_z = 1\<rparr>"

text \<open>
  Tiles whose particles are given by the number of their cell, and a memory with two
  masks: the mask at address 0 marks the cells 0 and 2 as fine, the mask at address 1
  the cells 1 and 2.
\<close>

definition geom_cell :: "int \<Rightarrow> nat \<Rightarrow> nat" where
  "geom_cell lev p = p"

definition mem_two :: "nat \<Rightarrow> nat iMultiFab" where
  "mem_two a cell =
     (if a = 0 then (if cell = 0 \<or> cell = 2 then 1 else 0)
      else (if cell = 1 \<or> cell = 2 then 1 else 0))"

definition widths :: "int \<Rightarrow> int \<Rightarrow> bool \<Rightarrow> bool \<Rightarrow> settings" where
  "widths wc wg dep gath =
     \<lparr>n_current_deposition_buffer = wc, n_field_gather_buffer = wg,
      m_deposit_on_main_grid = dep, m_gather_from_main_grid = gath\<rparr>"

section \<open>Partition: the helpers of \<open>SortingUtils.H\<close>\<close>

text \<open>A sequence of writes \<open>fl[h k] = v (h k)\<close> leaves at each index the value written there, if any.\<close>

lemma fold_update_length:
  "length (fold (\<lambda>k fl. fl[h k := g k]) ks fl) = length fl"
  by (induction ks arbitrary: fl) simp_all

lemma fold_update_nth:
  "j < length fl \<Longrightarrow>
   fold (\<lambda>k fl. fl[h k := v (h k)]) ks fl ! j = (if j \<in> h ` set ks then v j else fl ! j)"
proof (induction ks arbitrary: fl)
  case Nil
  then show ?case by simp
next
  case (Cons k ks)
  have "j < length (fl[h k := v (h k)])" using Cons.prems by simp
  from Cons.IH [OF this] show ?case
    using Cons.prems by (auto simp: nth_list_update)
qed

text \<open>On a fresh vector of \<open>np\<close> flags, \<open>fillBufferFlag\<close> stores the mask value of every particle.\<close>

lemma fillBufferFlag_Some:
  "fillBufferFlag pti (Some a) (replicate np 0) geom mem np =
     (if np > length pti then Inl OutOfBounds
      else Inr (map (\<lambda>i. mem a (geom (pti ! i))) [0..<np]))"
proof -
  let ?v = "\<lambda>i. mem a (geom (pti ! i))"
  let ?r = "fold (\<lambda>k fl. fl[(\<lambda>i. i) k := ?v ((\<lambda>i. i) k)]) [0..<np] (replicate np 0)"
  have len: "length ?r = np"
    using fold_update_length [of "\<lambda>i. i" ?v "[0..<np]" "replicate np 0"] by simp
  have "?r ! j = ?v j" if "j < np" for j
    using fold_update_nth [of j "replicate np 0" "\<lambda>i. i" ?v "[0..<np]"] that by simp
  then have "?r = map ?v [0..<np]"
    using len by (intro nth_equalityI) simp_all
  then show ?thesis
    by (simp add: fillBufferFlag_def)
qed

text \<open>
  \<open>fillBufferFlagRemainingParticles\<close> over the positions from \<open>start\<close> to the end of the
  permutation stores the mask value of every particle listed there.
\<close>

lemma map_nth_shift: "start \<le> length pid \<Longrightarrow>
   map (\<lambda>i. pid ! (i + start)) [0..<length pid - start] = drop start pid"
  by (intro nth_equalityI) (simp_all add: add.commute)

lemma fillBufferFlagRemainingParticles_Some:
  assumes "start \<le> length pid" and "n = length pid - start"
  shows "\<exists>fl. fillBufferFlagRemainingParticles pti (Some b) inexflag geom mem pid start n = Inr fl
            \<and> length fl = length inexflag
            \<and> (\<forall>j \<in> set (drop start pid). j < length inexflag \<longrightarrow> fl ! j = mem b (geom (pti ! j)))"
proof -
  let ?v = "\<lambda>j. mem b (geom (pti ! j))"
  let ?h = "\<lambda>i. pid ! (i + start)"
  let ?r = "fold (\<lambda>k fl. fl[?h k := ?v (?h k)]) [0..<n] inexflag"
  have len: "length ?r = length inexflag"
    using fold_update_length [of ?h "\<lambda>k. ?v (?h k)" "[0..<n]" inexflag] by simp
  have img: "?h ` set [0..<n] = set (drop start pid)"
    using map_nth_shift [OF assms(1)] assms(2) by (metis list.set_map)
  have "?r ! j = ?v j" if "j \<in> set (drop start pid)" "j < length inexflag" for j
    using fold_update_nth [of j inexflag ?h ?v "[0..<n]"] that img by simp
  then show ?thesis
    using len by (simp add: fillBufferFlagRemainingParticles_def)
qed

text \<open>\<open>stablePartition\<close> on the whole permutation and on its back segment.\<close>

lemma stablePartition_whole:
  assumes "\<forall>i \<in> set xs. (fl ! i \<noteq> 0) = P i"
  shows "stablePartition xs 0 (length xs) fl =
           (filter P xs @ filter (\<lambda>i. \<not> P i) xs, length (filter P xs))"
proof -
  have 1: "filter (\<lambda>i. fl ! i \<noteq> 0) xs = filter P xs"
    using assms by (intro filter_cong) auto
  have 2: "filter (\<lambda>i. \<not> fl ! i \<noteq> 0) xs = filter (\<lambda>i. \<not> P i) xs"
    using assms by (intro filter_cong) auto
  show ?thesis
    unfolding stablePartition_def Let_def using 1 2 by simp
qed

lemma stablePartition_back:
  assumes "\<forall>i \<in> set B. (fl ! i \<noteq> 0) = P i"
  shows "stablePartition (A @ B) (length A) (length (A @ B)) fl =
           (A @ filter P B @ filter (\<lambda>i. \<not> P i) B, length A + length (filter P B))"
proof -
  have 1: "filter (\<lambda>i. fl ! i \<noteq> 0) B = filter P B"
    using assms by (intro filter_cong) auto
  have 2: "filter (\<lambda>i. \<not> fl ! i \<noteq> 0) B = filter (\<lambda>i. \<not> P i) B"
    using assms by (intro filter_cong) auto
  show ?thesis
    unfolding stablePartition_def Let_def using 1 2 by simp
qed

lemma second_pass:
  assumes "length (A @ B) = np" and "length fl = np" and "\<forall>j \<in> set B. j < np"
  shows "\<exists>fl2. fillBufferFlagRemainingParticles pti (Some b) fl geom mem (A @ B) (length A)
                  (np - length A) = Inr fl2
           \<and> stablePartition (A @ B) (length A) (length (A @ B)) fl2 =
               (A @ filter (fine (mem b) geom pti) B @ filter (\<lambda>i. \<not> fine (mem b) geom pti i) B,
                length A + length (filter (fine (mem b) geom pti) B))"
proof -
  have "length A \<le> length (A @ B)" by simp
  moreover have "np - length A = length (A @ B) - length A" using assms(1) by simp
  ultimately obtain fl2 where
    r: "fillBufferFlagRemainingParticles pti (Some b) fl geom mem (A @ B) (length A)
          (np - length A) = Inr fl2"
    and v: "\<forall>j \<in> set (drop (length A) (A @ B)). j < length fl \<longrightarrow> fl2 ! j = mem b (geom (pti ! j))"
    using fillBufferFlagRemainingParticles_Some [of "length A" "A @ B" "np - length A" pti b fl geom mem]
    by blast
  have "\<forall>i \<in> set B. (fl2 ! i \<noteq> 0) = fine (mem b) geom pti i"
    using v assms(2,3) by (simp add: fine_def)
  from stablePartition_back [OF this] r show ?thesis by blast
qed

section \<open>Partition: the permutation and the counts of lines 61--121\<close>

text \<open>
  With a primary mask at address \<open>a\<close> and a tile of at least \<open>np\<close> particles, lines
  61--121 compute the following, where \<open>A\<close> lists the particles that the primary mask
  marks fine and \<open>B\<close> the others, both in increasing order.
\<close>

lemma partition_indices_unfold:
  fixes st :: settings and a :: nat and current_masks gather_masks :: mask_ptr
    and mem :: "nat \<Rightarrow> 'c iMultiFab" and Geom :: "int \<Rightarrow> 'p \<Rightarrow> 'c" and lev :: int
    and pti :: "'p list" and np :: nat
  defines "Wc \<equiv> n_current_deposition_buffer st" and "Wg \<equiv> n_field_gather_buffer st"
  defines "prim \<equiv> (if Wg \<ge> Wc then gather_masks else current_masks)"
  defines "A \<equiv> filter (fine (mem a) (Geom lev) pti) [0..<np]"
  defines "B \<equiv> filter (\<lambda>i. \<not> fine (mem a) (Geom lev) pti i) [0..<np]"
  assumes prim: "prim = Some a" and np: "np \<le> length pti"
  shows "partition_indices st mem Geom nfc nfg np pti lev current_masks gather_masks =
     (if Wc = Wg then Inr (A @ B, int (length A), int (length A))
      else if length A = np then Inr (A @ B, int np, int np)
      else if Wc \<le> Wg \<or> current_masks = gather_masks then
        (if Wc > 0 then
           (case current_masks of
              None \<Rightarrow> Inl NullMask
            | Some b \<Rightarrow>
                let B1 = filter (fine (mem b) (Geom lev) pti) B;
                    B2 = filter (\<lambda>i. \<not> fine (mem b) (Geom lev) pti i) B
                in if current_masks = gather_masks
                   then Inr (A @ B1 @ B2, nfc, int (length A + length B1))
                   else Inr (A @ B1 @ B2, int (length A + length B1), int (length A)))
         else Inr (A @ B, nfc, int (length A)))
      else
        (if Wg > 0 then
           (case gather_masks of
              None \<Rightarrow> Inl NullMask
            | Some b \<Rightarrow>
                let B1 = filter (fine (mem b) (Geom lev) pti) B;
                    B2 = filter (\<lambda>i. \<not> fine (mem b) (Geom lev) pti i) B
                in Inr (A @ B1 @ B2, int (length A), int (length A + length B1)))
         else Inr (A @ B, int (length A), nfg)))"
proof -
  let ?fl = "map (\<lambda>i. mem a (Geom lev (pti ! i))) [0..<np]"
  have fb: "fillBufferFlag pti prim (replicate np 0) (Geom lev) mem np = Inr ?fl"
    using prim np by (simp add: fillBufferFlag_Some)
  have "stablePartition [0..<np] 0 (length [0..<np]) ?fl = (A @ B, length A)"
    unfolding A_def B_def by (intro stablePartition_whole) (simp add: fine_def)
  then have sp1: "stablePartition [0..<np] 0 np ?fl = (A @ B, length A)" by simp
  have lenAB: "length (A @ B) = np"
    unfolding A_def B_def using sum_length_filter_compl [of "fine (mem a) (Geom lev) pti" "[0..<np]"]
    by simp
  have inB: "\<forall>j \<in> set B. j < np" unfolding B_def by simp
  have sec: "\<exists>fl2. fillBufferFlagRemainingParticles pti (Some b) ?fl (Geom lev) mem (A @ B) (length A)
                  (np - length A) = Inr fl2
           \<and> stablePartition (A @ B) (length A) (length (A @ B)) fl2 =
               (A @ filter (fine (mem b) (Geom lev) pti) B
                  @ filter (\<lambda>i. \<not> fine (mem b) (Geom lev) pti i) B,
                length A + length (filter (fine (mem b) (Geom lev) pti) B))" for b
    by (rule second_pass [OF lenAB _ inB]) simp
  have pm: "prim = gather_masks \<longleftrightarrow> (Wc \<le> Wg \<or> current_masks = gather_masks)"
    by (auto simp: prim_def)
  have nul: "fillBufferFlagRemainingParticles pti None fl g mem p s n = Inl NullMask" for fl g p s n
    by (simp add: fillBufferFlagRemainingParticles_def)
  show ?thesis
  proof (cases "Wc = Wg \<or> length A = np")
    case True
    then show ?thesis
      using fb sp1 lenAB unfolding partition_indices_def Let_def prim_def Wc_def Wg_def
      by (auto simp: fillWithConsecutiveIntegers_def)
  next
    case False
    show ?thesis
    proof (cases "prim = gather_masks")
      case pg: True
      show ?thesis
      proof (cases current_masks)
        case None
        then show ?thesis
          using False pg pm fb sp1 lenAB nul unfolding partition_indices_def Let_def prim_def Wc_def Wg_def
          by (auto simp: fillWithConsecutiveIntegers_def)
      next
        case (Some b)
        from sec [of b] obtain fl2 where
          "fillBufferFlagRemainingParticles pti (Some b) ?fl (Geom lev) mem (A @ B) (length A)
                  (np - length A) = Inr fl2"
          "stablePartition (A @ B) (length A) np fl2 =
               (A @ filter (fine (mem b) (Geom lev) pti) B
                  @ filter (\<lambda>i. \<not> fine (mem b) (Geom lev) pti i) B,
                length A + length (filter (fine (mem b) (Geom lev) pti) B))"
          using lenAB by auto
        then show ?thesis
          using False pg pm Some fb sp1 lenAB unfolding partition_indices_def Let_def prim_def Wc_def Wg_def
          by (auto simp: fillWithConsecutiveIntegers_def)
      qed
    next
      case pg: False
      show ?thesis
      proof (cases gather_masks)
        case None
        then show ?thesis
          using False pg pm fb sp1 lenAB nul unfolding partition_indices_def Let_def prim_def Wc_def Wg_def
          by (auto simp: fillWithConsecutiveIntegers_def)
      next
        case (Some b)
        from sec [of b] obtain fl2 where
          "fillBufferFlagRemainingParticles pti (Some b) ?fl (Geom lev) mem (A @ B) (length A)
                  (np - length A) = Inr fl2"
          "stablePartition (A @ B) (length A) np fl2 =
               (A @ filter (fine (mem b) (Geom lev) pti) B
                  @ filter (\<lambda>i. \<not> fine (mem b) (Geom lev) pti i) B,
                length A + length (filter (fine (mem b) (Geom lev) pti) B))"
          using lenAB by auto
        then show ?thesis
          using False pg pm Some fb sp1 lenAB unfolding partition_indices_def Let_def prim_def Wc_def Wg_def
          by (auto simp: fillWithConsecutiveIntegers_def)
      qed
    qed
  qed
qed

text \<open>A call that returns has read a primary mask and stayed within the tile.\<close>

lemma partition_indices_Inr_D:
  assumes "partition_indices st mem Geom nfc nfg np pti lev current_masks gather_masks = Inr r"
  shows "\<exists>a. primary_mask st current_masks gather_masks = Some a \<and> np \<le> length pti"
  using assms unfolding partition_indices_def Let_def fillBufferFlag_def primary_mask_def
  by (auto split: option.splits if_splits)

lemma PartitionParticlesInBuffers_Inr_D:
  assumes "PartitionParticlesInBuffers st mem Geom nfc nfg np pti lev current_masks gather_masks
             = Inr r"
  shows "\<exists>pid c g.
           partition_indices st mem Geom nfc nfg np pti lev current_masks gather_masks
             = Inr (pid, c, g)
         \<and> fine_current r = (if m_deposit_on_main_grid st \<and> lev > 0 then 0 else c)
         \<and> fine_gather r = (if m_gather_from_main_grid st \<and> lev > 0 then 0 else g)
         \<and> ptile r = (if fine_current r \<noteq> int np \<or> fine_gather r \<noteq> int np
                       then gatherParticles pti np pid else pti)
         \<and> gather_passes r = (if fine_current r \<noteq> int np \<or> fine_gather r \<noteq> int np
                               then 1 else 0)"
  using assms unfolding PartitionParticlesInBuffers_def Let_def
  by (auto split: sum.splits prod.splits if_splits)

text \<open>The permutation and the counts that lines 61--121 produce, by cases.\<close>

lemma partition_indices_cases:
  fixes st :: settings and current_masks gather_masks :: mask_ptr
    and mem :: "nat \<Rightarrow> 'c iMultiFab" and Geom :: "int \<Rightarrow> 'p \<Rightarrow> 'c" and lev :: int
    and pti :: "'p list" and np :: nat
  defines "Wc \<equiv> n_current_deposition_buffer st" and "Wg \<equiv> n_field_gather_buffer st"
  defines "fp \<equiv> mask_fine mem (Geom lev) pti (primary_mask st current_masks gather_masks)"
  defines "fo \<equiv> mask_fine mem (Geom lev) pti (other_mask st current_masks gather_masks)"
  defines "A \<equiv> filter fp [0..<np]"
  defines "B \<equiv> filter (\<lambda>i. \<not> fp i) [0..<np]"
  defines "B1 \<equiv> filter fo B"
  defines "B2 \<equiv> filter (\<lambda>i. \<not> fo i) B"
  assumes res: "partition_indices st mem Geom nfc nfg np pti lev current_masks gather_masks
                  = Inr (pid, c, g)"
  shows "(Wc = Wg \<and> pid = A @ B \<and> c = int (length A) \<and> g = int (length A))
       \<or> (Wc \<noteq> Wg \<and> length A = np \<and> pid = A @ B \<and> c = int np \<and> g = int np)
       \<or> (Wc \<noteq> Wg \<and> length A \<noteq> np \<and> current_masks \<noteq> gather_masks \<and> 0 < other_width st
            \<and> pid = A @ B1 @ B2
            \<and> (if Wg \<ge> Wc then g = int (length A) \<and> c = int (length A + length B1)
                else c = int (length A) \<and> g = int (length A + length B1)))
       \<or> (Wc \<noteq> Wg \<and> length A \<noteq> np \<and> current_masks \<noteq> gather_masks \<and> other_width st \<le> 0
            \<and> pid = A @ B
            \<and> (if Wg \<ge> Wc then g = int (length A) \<and> c = nfc
                else c = int (length A) \<and> g = nfg))
       \<or> (Wc \<noteq> Wg \<and> length A \<noteq> np \<and> current_masks = gather_masks
            \<and> pid = A @ B \<and> c = nfc \<and> g = int (length A))"
proof -
  from partition_indices_Inr_D [OF res] obtain a where
    prim: "primary_mask st current_masks gather_masks = Some a" and np: "np \<le> length pti"
    by blast
  have fp: "fp = fine (mem a) (Geom lev) pti"
    unfolding fp_def by (simp add: mask_fine_def prim fun_eq_iff)
  have noB1: "filter fp B = []" unfolding B_def by simp
  have allB2: "filter (\<lambda>i. \<not> fp i) B = B" unfolding B_def by simp
  have prim': "(if n_current_deposition_buffer st \<le> n_field_gather_buffer st
               then gather_masks else current_masks) = Some a"
    using prim by (simp add: primary_mask_def)
  have pm: "primary_mask st current_masks gather_masks = gather_masks \<longleftrightarrow>
            (Wc \<le> Wg \<or> current_masks = gather_masks)"
    by (auto simp: primary_mask_def Wc_def Wg_def)
  have eq: "Inr (pid, c, g) =
     (if Wc = Wg then Inr (A @ B, int (length A), int (length A))
      else if length A = np then Inr (A @ B, int np, int np)
      else if Wc \<le> Wg \<or> current_masks = gather_masks then
        (if Wc > 0 then
           (case current_masks of
              None \<Rightarrow> Inl NullMask
            | Some b \<Rightarrow>
                let B1 = filter (fine (mem b) (Geom lev) pti) B;
                    B2 = filter (\<lambda>i. \<not> fine (mem b) (Geom lev) pti i) B
                in if current_masks = gather_masks
                   then Inr (A @ B1 @ B2, nfc, int (length A + length B1))
                   else Inr (A @ B1 @ B2, int (length A + length B1), int (length A)))
         else Inr (A @ B, nfc, int (length A)))
      else
        (if Wg > 0 then
           (case gather_masks of
              None \<Rightarrow> Inl NullMask
            | Some b \<Rightarrow>
                let B1 = filter (fine (mem b) (Geom lev) pti) B;
                    B2 = filter (\<lambda>i. \<not> fine (mem b) (Geom lev) pti i) B
                in Inr (A @ B1 @ B2, int (length A), int (length A + length B1)))
         else Inr (A @ B, int (length A), nfg)))"
    using res
    unfolding A_def B_def fp Wc_def Wg_def partition_indices_unfold [OF prim' np]
    by simp
  show ?thesis
  proof (cases "Wc \<le> Wg")
    case True
    then have o: "other_mask st current_masks gather_masks = current_masks"
      "other_width st = Wc" "primary_mask st current_masks gather_masks = gather_masks"
      by (simp_all add: other_mask_def other_width_def primary_mask_def Wc_def Wg_def)
    show ?thesis
    proof (cases "current_masks = gather_masks")
      case al: True
      then have "fo = fp" unfolding fo_def fp_def o by simp
      then show ?thesis
        using eq True al o prim noB1 allB2 noB1 [unfolded fp] allB2 [unfolded fp] unfolding B1_def B2_def
        by (auto simp: Let_def split: if_splits option.splits)
    next
      case nal: False
      show ?thesis
      proof (cases current_masks)
        case None
        then show ?thesis
          using eq True nal o prim
          by (auto simp: Let_def split: if_splits option.splits)
      next
        case (Some b)
        then have "fo = fine (mem b) (Geom lev) pti"
          unfolding fo_def o by (simp add: mask_fine_def fun_eq_iff)
        then show ?thesis
          using eq True nal o prim Some unfolding B1_def B2_def
          by (auto simp: Let_def split: if_splits option.splits)
      qed
    qed
  next
    case False
    then have o: "other_mask st current_masks gather_masks = gather_masks"
      "other_width st = Wg" "primary_mask st current_masks gather_masks = current_masks"
      by (simp_all add: other_mask_def other_width_def primary_mask_def Wc_def Wg_def)
    show ?thesis
    proof (cases "current_masks = gather_masks")
      case al: True
      then have "fo = fp" unfolding fo_def fp_def o by simp
      then show ?thesis
        using eq False al o prim noB1 allB2 noB1 [unfolded fp] allB2 [unfolded fp] unfolding B1_def B2_def
        by (auto simp: Let_def split: if_splits option.splits)
    next
      case nal: False
      show ?thesis
      proof (cases gather_masks)
        case None
        then show ?thesis
          using eq False nal o prim
          by (auto simp: Let_def split: if_splits option.splits)
      next
        case (Some b)
        then have "fo = fine (mem b) (Geom lev) pti"
          unfolding fo_def o by (simp add: mask_fine_def fun_eq_iff)
        then show ?thesis
          using eq False nal o prim Some unfolding B1_def B2_def
          by (auto simp: Let_def split: if_splits option.splits)
      qed
    qed
  qed
qed

lemma PartitionParticlesInBuffers_of_partition_indices:
  assumes "partition_indices st mem Geom nfc nfg np pti lev current_masks gather_masks
             = Inr (pid, c, g)"
  shows "\<exists>r. PartitionParticlesInBuffers st mem Geom nfc nfg np pti lev current_masks gather_masks
               = Inr r
            \<and> fine_current r = (if m_deposit_on_main_grid st \<and> lev > 0 then 0 else c)
            \<and> fine_gather r = (if m_gather_from_main_grid st \<and> lev > 0 then 0 else g)"
  using assms unfolding PartitionParticlesInBuffers_def Let_def by auto

text \<open>With both masks present and a tile of at least \<open>np\<close> particles, the call returns.\<close>

lemma PartitionParticlesInBuffers_returns:
  assumes "current_masks = Some cm" and "gather_masks = Some gm" and np: "np \<le> length pti"
  shows "\<exists>r. PartitionParticlesInBuffers st mem Geom nfc nfg np pti lev current_masks gather_masks
               = Inr r"
proof -
  obtain a where prim: "(if n_current_deposition_buffer st \<le> n_field_gather_buffer st
                    then gather_masks else current_masks) = Some a"
    using assms(1,2)
    by (cases "n_current_deposition_buffer st \<le> n_field_gather_buffer st") auto
  have "\<exists>pid c g. partition_indices st mem Geom nfc nfg np pti lev current_masks gather_masks
          = Inr (pid, c, g)"
    unfolding partition_indices_unfold [OF prim np] using assms(1,2) by (simp add: Let_def)
  then show ?thesis
    using PartitionParticlesInBuffers_of_partition_indices by blast
qed


lemma length_front_back:
  "length (filter P [0..<np]) + length (filter (\<lambda>i. \<not> P i) [0..<np]) = np"
  using sum_length_filter_compl [of P "[0..<np]"] by simp

text \<open>
  The permutation in one formula: the front segment, then the back segment split by the
  other classification when the widths differ.
\<close>

lemma partition_indices_pid:
  fixes st :: settings and current_masks gather_masks :: mask_ptr
    and mem :: "nat \<Rightarrow> 'c iMultiFab" and Geom :: "int \<Rightarrow> 'p \<Rightarrow> 'c" and lev :: int
    and pti :: "'p list" and np :: nat
  defines "fp \<equiv> primary_fine st mem (Geom lev) pti current_masks gather_masks"
  defines "fo \<equiv> other_fine st mem (Geom lev) pti current_masks gather_masks"
  defines "two \<equiv> (n_current_deposition_buffer st \<noteq> n_field_gather_buffer st)"
  defines "A \<equiv> filter fp [0..<np]"
  defines "B \<equiv> filter (\<lambda>i. \<not> fp i) [0..<np]"
  assumes res: "partition_indices st mem Geom nfc nfg np pti lev current_masks gather_masks
                  = Inr (pid, c, g)"
  shows "pid = A @ filter (\<lambda>i. two \<and> fo i) B @ filter (\<lambda>i. \<not> (two \<and> fo i)) B"
proof -
  let ?fp = "mask_fine mem (Geom lev) pti (primary_mask st current_masks gather_masks)"
  let ?fo = "mask_fine mem (Geom lev) pti (other_mask st current_masks gather_masks)"
  have fp: "fp = ?fp" by (simp add: fp_def primary_fine_def fun_eq_iff)
  have fo: "fo = (\<lambda>i. other_width st \<le> 0 \<or> ?fo i)"
    by (simp add: fo_def other_fine_def fun_eq_iff)
  have al: "current_masks = gather_masks \<Longrightarrow> ?fo = ?fp"
    by (simp add: primary_mask_def other_mask_def)
  have nB: "B = [] " if "length A = np"
  proof -
    have "length A + length B = np" unfolding A_def B_def by (rule length_front_back)
    with that show ?thesis by simp
  qed
  have fB: "filter (\<lambda>i. fp i) B = []" "filter (\<lambda>i. \<not> fp i) B = B"
    unfolding B_def by simp_all
  from partition_indices_cases [OF res, folded fp, folded A_def B_def]
  consider
      (same) "\<not> two" "pid = A @ B"
    | (nobuf) "two" "length A = np" "pid = A @ B"
    | (twice) "two" "current_masks \<noteq> gather_masks" "0 < other_width st"
        "pid = A @ filter ?fo B @ filter (\<lambda>i. \<not> ?fo i) B"
    | (once) "two" "other_width st \<le> 0" "pid = A @ B"
    | (shared) "two" "current_masks = gather_masks" "pid = A @ B"
    unfolding two_def by fastforce
  then show ?thesis
  proof cases
    case same
    then show ?thesis by simp
  next
    case nobuf
    then show ?thesis using nB by simp
  next
    case twice
    then show ?thesis by (simp add: fo)
  next
    case once
    then show ?thesis by (simp add: fo)
  next
    case shared
    show ?thesis
    proof (cases "other_width st \<le> 0")
      case True
      then show ?thesis using shared by (simp add: fo)
    next
      case False
      then have "fo = fp" using al [OF shared(2)] fo fp by (simp add: fun_eq_iff)
      then show ?thesis using shared fB by simp
    qed
  qed
qed

text \<open>The same by output segments: the particles of segment 0, then 1, then 2, each in increasing order.\<close>

lemma segment_le_2: "segment st mem geom pti cm gm i \<le> 2"
  by (simp add: segment_def)

lemma partition_indices_segments:
  fixes st :: settings and current_masks gather_masks :: mask_ptr
    and mem :: "nat \<Rightarrow> 'c iMultiFab" and Geom :: "int \<Rightarrow> 'p \<Rightarrow> 'c" and lev :: int
    and pti :: "'p list" and np :: nat
  defines "seg \<equiv> segment st mem (Geom lev) pti current_masks gather_masks"
  assumes res: "partition_indices st mem Geom nfc nfg np pti lev current_masks gather_masks
                  = Inr (pid, c, g)"
  shows "pid = filter (\<lambda>i. seg i = 0) [0..<np] @ filter (\<lambda>i. seg i = 1) [0..<np]
                 @ filter (\<lambda>i. seg i = 2) [0..<np]"
proof -
  let ?fp = "primary_fine st mem (Geom lev) pti current_masks gather_masks"
  let ?fo = "other_fine st mem (Geom lev) pti current_masks gather_masks"
  let ?two = "n_current_deposition_buffer st \<noteq> n_field_gather_buffer st"
  have 0: "filter ?fp [0..<np] = filter (\<lambda>i. seg i = 0) [0..<np]"
    by (rule filter_cong) (auto simp: seg_def segment_def)
  have 1: "filter (\<lambda>i. ?two \<and> ?fo i) (filter (\<lambda>i. \<not> ?fp i) [0..<np])
             = filter (\<lambda>i. seg i = 1) [0..<np]"
    unfolding filter_filter by (rule filter_cong) (auto simp: seg_def segment_def)
  have 2: "filter (\<lambda>i. \<not> (?two \<and> ?fo i)) (filter (\<lambda>i. \<not> ?fp i) [0..<np])
             = filter (\<lambda>i. seg i = 2) [0..<np]"
    unfolding filter_filter by (rule filter_cong) (auto simp: seg_def segment_def)
  show ?thesis
    unfolding partition_indices_pid [OF res] 0 1 2 ..
qed

text \<open>
  Three blocks of increasing indices, one per segment number: the list is ordered by
  segment and, within a segment, by index; it lists every index once; and the positions
  of each block are known.
\<close>

lemma blocks_lex:
  fixes s :: "nat \<Rightarrow> nat" and np :: nat
  defines "xs \<equiv> filter (\<lambda>i. s i = 0) [0..<np] @ filter (\<lambda>i. s i = 1) [0..<np]
                   @ filter (\<lambda>i. s i = 2) [0..<np]"
  shows "sorted_wrt (\<lambda>i j. s i < s j \<or> (s i = s j \<and> i < j)) xs"
proof -
  let ?R = "\<lambda>i j. s i < s j \<or> (s i = s j \<and> i < j)"
  have blk: "sorted_wrt ?R (filter (\<lambda>i. s i = k) [0..<np])" for k
  proof (rule sorted_wrt_mono_rel [where P = "(<)"])
    show "sorted_wrt (<) (filter (\<lambda>i. s i = k) [0..<np])"
      by (intro sorted_wrt_filter) simp
  next
    fix x y
    assume "x \<in> set (filter (\<lambda>i. s i = k) [0..<np])" "y \<in> set (filter (\<lambda>i. s i = k) [0..<np])"
      "x < y"
    then show "?R x y" by simp
  qed
  have c01: "\<forall>x \<in> set (filter (\<lambda>i. s i = 0) [0..<np]). \<forall>y \<in> set (filter (\<lambda>i. s i = 1) [0..<np]). ?R x y"
    by simp
  have c02: "\<forall>x \<in> set (filter (\<lambda>i. s i = 0) [0..<np]). \<forall>y \<in> set (filter (\<lambda>i. s i = 2) [0..<np]). ?R x y"
    by simp
  have c12: "\<forall>x \<in> set (filter (\<lambda>i. s i = 1) [0..<np]). \<forall>y \<in> set (filter (\<lambda>i. s i = 2) [0..<np]). ?R x y"
    by simp
  show ?thesis
    unfolding xs_def sorted_wrt_append
    using blk [of 0] blk [of 1] blk [of 2] c01 c02 c12
    by (simp only: set_append ball_Un) blast
qed

lemma blocks_perm:
  fixes s :: "nat \<Rightarrow> nat" and np :: nat
  defines "xs \<equiv> filter (\<lambda>i. s i = 0) [0..<np] @ filter (\<lambda>i. s i = 1) [0..<np]
                   @ filter (\<lambda>i. s i = 2) [0..<np]"
  assumes "\<And>i. s i \<le> 2"
  shows "distinct xs \<and> set xs = {0..<np}"
proof -
  have d: "distinct xs" unfolding xs_def by (simp add: disjoint_iff)
  have "x \<in> set xs \<longleftrightarrow> x < np" for x
  proof -
    have "s x \<le> 2" by (rule assms(2))
    then have "s x = 0 \<or> s x = 1 \<or> s x = 2" by linarith
    then show ?thesis unfolding xs_def by (simp only: set_append set_filter Un_iff mem_Collect_eq set_upt atLeastLessThan_iff) blast
  qed
  then have "set xs = {0..<np}" by (simp only: set_eq_iff atLeastLessThan_iff) simp
  with d show ?thesis by simp
qed

lemma blocks_positions:
  fixes s :: "nat \<Rightarrow> nat" and np :: nat
  defines "S0 \<equiv> filter (\<lambda>i. s i = 0) [0..<np]"
  defines "S1 \<equiv> filter (\<lambda>i. s i = 1) [0..<np]"
  defines "S2 \<equiv> filter (\<lambda>i. s i = 2) [0..<np]"
  assumes a: "a < length (S0 @ S1 @ S2)"
  shows "(a < length S0 \<longleftrightarrow> s ((S0 @ S1 @ S2) ! a) = 0)
       \<and> (a < length S0 + length S1 \<longleftrightarrow> s ((S0 @ S1 @ S2) ! a) \<le> 1)"
proof -
  have m0: "\<And>x. x \<in> set S0 \<Longrightarrow> s x = 0" and m1: "\<And>x. x \<in> set S1 \<Longrightarrow> s x = 1"
    and m2: "\<And>x. x \<in> set S2 \<Longrightarrow> s x = 2"
    by (simp_all add: S0_def S1_def S2_def)
  consider "a < length S0" | "length S0 \<le> a" "a < length S0 + length S1"
    | "length S0 + length S1 \<le> a" by linarith
  then show ?thesis
  proof cases
    case 1
    then have "(S0 @ S1 @ S2) ! a = S0 ! a" by (simp add: nth_append)
    then show ?thesis using 1 m0 [of "S0 ! a"] by simp
  next
    case 2
    have lt: "a - length S0 < length S1" using 2 by linarith
    have "(S0 @ S1 @ S2) ! a = S1 ! (a - length S0)"
      using 2 lt by (simp add: nth_append)
    then show ?thesis using 2 m1 [of "S1 ! (a - length S0)"] by simp
  next
    case 3
    have lt: "a - length S0 - length S1 < length S2" using 3 a by simp
    have n1: "\<not> a < length S0" "\<not> a - length S0 < length S1" using 3 by linarith+
    have "(S0 @ S1 @ S2) ! a = S2 ! (a - length S0 - length S1)"
      using n1 by (simp add: nth_append)
    then show ?thesis using 3 lt m2 [of "S2 ! (a - length S0 - length S1)"] by simp
  qed
qed


section \<open>Partition: range of the two counts\<close>




section \<open>Partition: a buffer of width zero\<close>





section \<open>Partition: equal widths\<close>

text \<open>
  C3, as stated: with equal widths the two returned counts are equal. It fails when only
  one override is in force: widths 1 and 1, one particle, fine for the gather mask,
  level 1 and \<open>m_deposit_on_main_grid\<close> alone.
\<close>

theorem equal_widths_counts_differ:
  "PartitionParticlesInBuffers (widths 1 1 True False) mem_two geom_cell 1 1 1 [0] 1 (Some 1) (Some 0)
     = Inr \<lparr>fine_current = 0, fine_gather = 1, ptile = [0], gather_passes = 1\<rparr>"
  by code_simp

text \<open>
  C3, amended: with equal widths the two counts that the partition computes (lines
  61--121) are equal, and the returned counts are equal whenever the two overrides of
  lines 124--129 are both in force or both not.
\<close>

theorem equal_widths_equal_counts:
  assumes "n_current_deposition_buffer st = n_field_gather_buffer st"
    and "PartitionParticlesInBuffers st mem Geom nfc nfg np pti lev current_masks gather_masks
           = Inr r"
  shows "\<exists>pid c g.
           partition_indices st mem Geom nfc nfg np pti lev current_masks gather_masks
             = Inr (pid, c, g)
         \<and> c = g
         \<and> ((m_deposit_on_main_grid st \<and> lev > 0) = (m_gather_from_main_grid st \<and> lev > 0)
              \<longrightarrow> fine_current r = fine_gather r)"
proof -
  from PartitionParticlesInBuffers_Inr_D [OF assms(2)] obtain pid c g where
    pi: "partition_indices st mem Geom nfc nfg np pti lev current_masks gather_masks
           = Inr (pid, c, g)"
    and fc: "fine_current r = (if m_deposit_on_main_grid st \<and> lev > 0 then 0 else c)"
    and fg: "fine_gather r = (if m_gather_from_main_grid st \<and> lev > 0 then 0 else g)"
    by blast
  have "c = g" using partition_indices_cases [OF pi] assms(1) by auto
  then show ?thesis using pi fc fg by auto
qed

theorem equal_widths_equal_counts_witness:
  "\<exists>pid c g.
     partition_indices (widths 1 1 False False) mem_two geom_cell 4 4 4 [0, 1, 2, 3] 1
       (Some 1) (Some 0) = Inr (pid, c, g)
   \<and> c = g \<and> fine_current \<lparr>fine_current = 2, fine_gather = 2, ptile = [0, 2, 1, 3], gather_passes = 1\<rparr>
       = fine_gather \<lparr>fine_current = 2, fine_gather = 2, ptile = [0, 2, 1, 3 :: nat], gather_passes = 1\<rparr>"
proof -
  have 1: "n_current_deposition_buffer (widths 1 1 False False)
             = n_field_gather_buffer (widths 1 1 False False)"
    by (simp add: widths_def)
  have 2: "PartitionParticlesInBuffers (widths 1 1 False False) mem_two geom_cell 4 4 4 [0, 1, 2, 3] 1
             (Some 1) (Some 0)
           = Inr \<lparr>fine_current = 2, fine_gather = 2, ptile = [0, 2, 1, 3], gather_passes = 1\<rparr>"
    by code_simp
  show ?thesis
    using equal_widths_equal_counts [OF 1 2] by (simp add: widths_def)
qed


section \<open>Partition: the two passes\<close>




section \<open>Partition: stability\<close>

text \<open>
  C5: the permutation lists every particle index of \<open>[0, np)\<close> once; the output segments
  are consecutive ranges of positions, segment 0 first, then 1, then 2; and of two
  particle indices \<open>i < j\<close> of the same output segment, \<open>i\<close> comes before \<open>j\<close>: if \<open>i\<close>
  is at position \<open>a\<close> and \<open>j\<close> at position \<open>b\<close>, then \<open>a < b\<close>. Particles with identical
  classification flags are in the same segment by the definition of \<open>segment\<close>. This
  holds after one pass and after two.
\<close>

theorem partition_is_stable:
  fixes st :: settings and current_masks gather_masks :: mask_ptr
    and mem :: "nat \<Rightarrow> 'c iMultiFab" and Geom :: "int \<Rightarrow> 'p \<Rightarrow> 'c" and lev :: int
    and pti :: "'p list" and np :: nat
  defines "seg \<equiv> segment st mem (Geom lev) pti current_masks gather_masks"
  defines "n0 \<equiv> length (filter (\<lambda>i. seg i = 0) [0..<np])"
  defines "n1 \<equiv> length (filter (\<lambda>i. seg i = 1) [0..<np])"
  assumes res: "partition_indices st mem Geom nfc nfg np pti lev current_masks gather_masks
                  = Inr (pid, c, g)"
  shows "distinct pid \<and> set pid = {0..<np}
       \<and> (\<forall>a. a < length pid \<longrightarrow>
             (a < n0 \<longleftrightarrow> seg (pid ! a) = 0) \<and> (a < n0 + n1 \<longleftrightarrow> seg (pid ! a) \<le> 1))
       \<and> (\<forall>a b. a < length pid \<and> b < length pid \<and> seg (pid ! a) = seg (pid ! b)
                \<and> pid ! a < pid ! b \<longrightarrow> a < b)"
proof -
  let ?R = "\<lambda>i j. seg i < seg j \<or> (seg i = seg j \<and> i < j)"
  note shape = partition_indices_segments [OF res, folded seg_def]
  have perm: "distinct pid \<and> set pid = {0..<np}"
    unfolding shape by (rule blocks_perm) (simp add: seg_def segment_le_2)
  have srt: "sorted_wrt ?R pid"
    unfolding shape by (rule blocks_lex)
  have pos: "(a < n0 \<longleftrightarrow> seg (pid ! a) = 0) \<and> (a < n0 + n1 \<longleftrightarrow> seg (pid ! a) \<le> 1)"
    if "a < length pid" for a
    using that blocks_positions [of a seg np] unfolding shape n0_def n1_def by simp
  have stab: "a < b" if h: "a < length pid" "b < length pid" "seg (pid ! a) = seg (pid ! b)"
      "pid ! a < pid ! b" for a b
  proof (rule ccontr)
    assume "\<not> a < b"
    moreover have "a \<noteq> b" using h(4) by auto
    ultimately have "b < a" by simp
    from sorted_wrt_nth_less [OF srt this h(1)] h(3) have "pid ! b < pid ! a" by simp
    with h(4) show False by simp
  qed
  from perm pos stab show ?thesis by blast
qed

theorem partition_is_stable_witness:
  "partition_indices (widths 1 2 False False) mem_two geom_cell 4 4 4 [0, 3, 2, 3] 1
     (Some 1) (Some 0) = Inr ([0, 2, 1, 3], 2, 2)
   \<and> segment (widths 1 2 False False) mem_two (geom_cell 1) [0, 3, 2, 3] (Some 1) (Some 0)
        ([0, 2, 1, 3] ! 2)
     = segment (widths 1 2 False False) mem_two (geom_cell 1) [0, 3, 2, 3] (Some 1) (Some 0)
        ([0, 2, 1, 3] ! 3)
   \<and> [0, 2, 1, 3] ! 2 < [0, 2, 1, 3 :: nat] ! 3
   \<and> (2::nat) < 3
   \<and> partition_indices (widths 1 1 False False) mem_two geom_cell 2 2 2 [3, 1] 0
     (Some 1) (Some 0) = Inr ([0, 1], 0, 0)
   \<and> segment (widths 1 1 False False) mem_two (geom_cell 0) [3, 1] (Some 1) (Some 0) ([0, 1] ! 0)
     = segment (widths 1 1 False False) mem_two (geom_cell 0) [3, 1] (Some 1) (Some 0) ([0, 1] ! 1)
   \<and> [0, 1] ! 0 < [0, 1 :: nat] ! 1
   \<and> (0::nat) < 1"
proof -
  have ev1: "partition_indices (widths 1 2 False False) mem_two geom_cell 4 4 4 [0, 3, 2, 3] 1
              (Some 1) (Some 0) = Inr ([0, 2, 1, 3], 2, 2)"
    by code_simp
  have s1: "segment (widths 1 2 False False) mem_two (geom_cell 1) [0, 3, 2, 3] (Some 1) (Some 0)
        ([0, 2, 1, 3] ! 2)
     = segment (widths 1 2 False False) mem_two (geom_cell 1) [0, 3, 2, 3] (Some 1) (Some 0)
        ([0, 2, 1, 3] ! 3)"
    by code_simp
  have ev2: "partition_indices (widths 1 1 False False) mem_two geom_cell 2 2 2 [3, 1] 0
     (Some 1) (Some 0) = Inr ([0, 1], 0, 0)"
    by code_simp
  have s2: "segment (widths 1 1 False False) mem_two (geom_cell 0) [3, 1] (Some 1) (Some 0) ([0, 1] ! 0)
     = segment (widths 1 1 False False) mem_two (geom_cell 0) [3, 1] (Some 1) (Some 0) ([0, 1] ! 1)"
    by code_simp
  have l1: "[0, 2, 1, 3] ! 2 < [0, 2, 1, 3 :: nat] ! 3" "(2::nat) < length [0, 2, 1, 3 :: nat]"
    "(3::nat) < length [0, 2, 1, 3 :: nat]" by simp_all
  have l2: "[0, 1] ! 0 < [0, 1 :: nat] ! 1" "(0::nat) < length [0, 1 :: nat]"
    "(1::nat) < length [0, 1 :: nat]" by simp_all
  from partition_is_stable [OF ev1] l1 s1 have a: "(2::nat) < 3" by blast
  from partition_is_stable [OF ev2] l2 s2 have b: "(0::nat) < 1" by blast
  from ev1 s1 l1(1) a ev2 s2 l2(1) b show ?thesis by blast
qed


section \<open>Partition: the reordering of the tile\<close>

text \<open>
  C6: the final counts of a call that returns are the counts of lines 61--121 after the
  overrides of lines 124--129; when one of them differs from \<open>np\<close> the call makes one
  gather pass over the tile, with the permutation of lines 61--121; when both equal \<open>np\<close>
  it makes none and the tile is as it was.
\<close>

theorem reorder_iff_count_differs:
  assumes "PartitionParticlesInBuffers st mem Geom nfc nfg np pti lev current_masks gather_masks
             = Inr r"
  shows "\<exists>pid c g.
           partition_indices st mem Geom nfc nfg np pti lev current_masks gather_masks
             = Inr (pid, c, g)
         \<and> fine_current r = (if m_deposit_on_main_grid st \<and> lev > 0 then 0 else c)
         \<and> fine_gather r = (if m_gather_from_main_grid st \<and> lev > 0 then 0 else g)
         \<and> (fine_current r \<noteq> int np \<or> fine_gather r \<noteq> int np
              \<longrightarrow> gather_passes r = 1 \<and> ptile r = gatherParticles pti np pid)
         \<and> (fine_current r = int np \<and> fine_gather r = int np
              \<longrightarrow> gather_passes r = 0 \<and> ptile r = pti)"
  using PartitionParticlesInBuffers_Inr_D [OF assms] by (auto split: if_splits)

theorem reorder_iff_count_differs_witness:
  "(\<exists>r pid c g.
      PartitionParticlesInBuffers (widths 1 2 True False) mem_two geom_cell 4 4 4
        [0, 1, 2, 3] 1 (Some 1) (Some 0) = Inr r
      \<and> partition_indices (widths 1 2 True False) mem_two geom_cell 4 4 4 [0, 1, 2, 3] 1
        (Some 1) (Some 0) = Inr (pid, c, g)
      \<and> c = 3 \<and> fine_current r = 0 \<and> fine_gather r = g \<and> fine_gather r \<noteq> int 4
      \<and> gather_passes r = 1 \<and> ptile r = gatherParticles [0, 1, 2, 3] 4 pid)
   \<and> (\<exists>r pid c g.
      PartitionParticlesInBuffers (widths 1 2 False False) mem_two geom_cell 2 2 2
        [0, 2] 1 (Some 1) (Some 0) = Inr r
      \<and> partition_indices (widths 1 2 False False) mem_two geom_cell 2 2 2 [0, 2] 1
        (Some 1) (Some 0) = Inr (pid, c, g)
      \<and> fine_current r = int 2 \<and> fine_gather r = int 2
      \<and> gather_passes r = 0 \<and> ptile r = [0, 2])"
proof -
  have ev1: "PartitionParticlesInBuffers (widths 1 2 True False) mem_two geom_cell 4 4 4
               [0, 1, 2, 3] 1 (Some 1) (Some 0)
             = Inr \<lparr>fine_current = 0, fine_gather = 2, ptile = [0, 2, 1, 3], gather_passes = 1\<rparr>"
    by code_simp
  have pi1: "partition_indices (widths 1 2 True False) mem_two geom_cell 4 4 4 [0, 1, 2, 3] 1
        (Some 1) (Some 0) = Inr ([0, 2, 1, 3], 3, 2)"
    by code_simp
  have ev2: "PartitionParticlesInBuffers (widths 1 2 False False) mem_two geom_cell 2 2 2
               [0, 2] 1 (Some 1) (Some 0)
             = Inr \<lparr>fine_current = 2, fine_gather = 2, ptile = [0, 2], gather_passes = 0\<rparr>"
    by code_simp
  have pi2: "partition_indices (widths 1 2 False False) mem_two geom_cell 2 2 2 [0, 2] 1
        (Some 1) (Some 0) = Inr ([0, 1], 2, 2)"
    by code_simp
  show ?thesis
    using reorder_iff_count_differs [OF ev1] reorder_iff_count_differs [OF ev2] ev1 ev2 pi1 pi2
    by (simp add: widths_def)
qed


section \<open>Position samplers: collapsed axes\<close>

text \<open>
  What the Regular sampler returns on a collapsed axis: for a particle index that is not
  negative (and, in XZ mode, a positive count along the second component), one half.
\<close>

lemma cdiv_nonneg: "0 \<le> a \<Longrightarrow> 0 < b \<Longrightarrow> cdiv a b = a div b"
  by (simp add: cdiv_def sgn_if)

lemma Regular_collapsed_half:
  assumes "collapsed d k" and "0 \<le> i_part"
    and "InjectorPositionRegular_getPositionUnitBox d ppc i_part ref_fac engine = Some p"
    and "0 < ref_fac ! 1 * dim_y ppc"
  shows "component p k = 1 / 2"
proof (cases d)
  case DIM_XZ
  let ?ny = "ref_fac ! 1 * dim_y ppc"
  have k: "k = 2" using assms(1) DIM_XZ by simp
  have "i_part - i_part div ?ny * ?ny = i_part mod ?ny"
    by (simp add: minus_div_mult_eq_mod)
  moreover have "0 \<le> i_part mod ?ny" "i_part mod ?ny < ?ny" using assms(4) by simp_all
  ultimately have "cdiv (i_part - cdiv i_part ?ny * ?ny) ?ny = 0"
    using assms(2,4) by (simp add: cdiv_nonneg)
  then show ?thesis
    using assms(3) DIM_XZ k
    by (auto simp: InjectorPositionRegular_getPositionUnitBox_def component_def Let_def
        split: if_splits)
next
  case DIM_1D_Z
  have "cdiv i_part 1 = i_part" using assms(2) by (simp add: cdiv_def sgn_if)
  then show ?thesis
    using assms(1,3) DIM_1D_Z
    by (auto simp: InjectorPositionRegular_getPositionUnitBox_def component_def Let_def cdiv_def
        split: if_splits)
qed (use assms(1) in simp_all)

text \<open>
  C7, as stated: the coordinates returned for the collapsed axes of a mode are 0 for
  every sampler. It fails for the Random sampler, which returns its three draws in every
  mode, and for the Regular sampler, whose collapsed axes have one lattice point at
  \<open>(0.5 + 0) / 1\<close>: in XZ mode the third component is one half for both.
\<close>

theorem samplers_collapsed_axis_not_zero:
  "collapsed DIM_XZ 2 \<and>
   component (InjectorPositionRandom_getPositionUnitBox DIM_XZ 0 [1, 1] engine_half) 2 \<noteq> 0 \<and>
   InjectorPositionRegular_getPositionUnitBox DIM_XZ ppc_111 0 [1, 1] engine_half
     = Some \<lparr>comp_x = 1 / 2, comp_y = 1 / 2, comp_z = 1 / 2\<rparr>"
  by (simp add: component_def InjectorPositionRandom_getPositionUnitBox_def engine_half_def
      InjectorPositionRegular_getPositionUnitBox_def ppc_111_def cdiv_def)

text \<open>
  C7, amended: for the RandomPlane sampler, every plane direction, particle index,
  refinement factor, engine and mode, the coordinates returned for the collapsed axes of
  the mode are 0.
\<close>

theorem RandomPlane_collapsed_zero:
  "collapsed d k \<Longrightarrow>
   component (InjectorPositionRandomPlane_getPositionUnitBox d dir i_part ref_fac engine) k = 0"
  by (cases d) (auto simp: component_def)

theorem RandomPlane_collapsed_zero_witness:
  "collapsed DIM_XZ 2 \<and>
   component (InjectorPositionRandomPlane_getPositionUnitBox DIM_XZ 1 0 [1, 1] engine_half) 2 = 0"
  using RandomPlane_collapsed_zero [of DIM_XZ 2 1 0 "[1, 1]" engine_half] by simp


section \<open>Regular sampler: the lattice of two points per axis\<close>

text \<open>
  C8: with two points per axis, refinement factor \<open>(1,1,1)\<close> and the 3-D mode, the particle
  indices 0 to 7 give eight points, pairwise different, whose coordinates are 0.25 or 0.75,
  and every combination of the two values occurs. Every value involved is a dyadic
  fraction, so the floating-point computation of the source is exact here.
\<close>

theorem Regular_222_lattice:
  "map (\<lambda>i. InjectorPositionRegular_getPositionUnitBox DIM_3D ppc_222 i [1, 1, 1] engine)
       [0, 1, 2, 3, 4, 5, 6, 7]
   = [Some \<lparr>comp_x = 1/4, comp_y = 1/4, comp_z = 1/4\<rparr>,
      Some \<lparr>comp_x = 1/4, comp_y = 3/4, comp_z = 1/4\<rparr>,
      Some \<lparr>comp_x = 1/4, comp_y = 1/4, comp_z = 3/4\<rparr>,
      Some \<lparr>comp_x = 1/4, comp_y = 3/4, comp_z = 3/4\<rparr>,
      Some \<lparr>comp_x = 3/4, comp_y = 1/4, comp_z = 1/4\<rparr>,
      Some \<lparr>comp_x = 3/4, comp_y = 3/4, comp_z = 1/4\<rparr>,
      Some \<lparr>comp_x = 3/4, comp_y = 1/4, comp_z = 3/4\<rparr>,
      Some \<lparr>comp_x = 3/4, comp_y = 3/4, comp_z = 3/4\<rparr>]
   \<and> distinct (map (\<lambda>i. InjectorPositionRegular_getPositionUnitBox DIM_3D ppc_222 i [1, 1, 1] engine)
        [0, 1, 2, 3, 4, 5, 6, 7])
   \<and> set (map (\<lambda>i. InjectorPositionRegular_getPositionUnitBox DIM_3D ppc_222 i [1, 1, 1] engine)
        [0, 1, 2, 3, 4, 5, 6, 7])
     = (\<lambda>(a, b, c). Some \<lparr>comp_x = a, comp_y = b, comp_z = c\<rparr>)
         ` ({1/4, 3/4} \<times> {1/4, 3/4} \<times> {1/4, 3/4})"
  by (auto simp: InjectorPositionRegular_getPositionUnitBox_def ppc_222_def cdiv_def)


section \<open>Position integrators\<close>

text \<open>
  C9: when the momentum at the start of the step equals the momentum at the midpoint,
  the implicit update gives the position that the explicit update gives with that
  momentum, in every mode and for every position, momentum, time step and speed of light.
\<close>

theorem UpdatePositionImplicit_reduces_to_explicit:
  "UpdatePositionImplicit d c pos ux uy uz ux uy uz dt = UpdatePosition d c pos ux uy uz dt"
  by (cases pos) (simp add: UpdatePositionImplicit_def UpdatePosition_def Let_def)


section \<open>Overlap of a box with the region\<close>

text \<open>
  C10: \<open>overlapsWith\<close> is false exactly when on some axis the lower corner of the box
  is strictly above the maximum of the region or the upper corner strictly below its
  minimum; so a box whose upper x equals the minimum x of the region, and which is not
  separated from the region on the other axes, overlaps it.
\<close>

theorem overlapsWith_non_strict:
  "(\<not> overlapsWith ip lo hi \<longleftrightarrow>
      (comp_x lo > xmax ip \<or> comp_x hi < xmin ip \<or>
       comp_y lo > ymax ip \<or> comp_y hi < ymin ip \<or>
       comp_z lo > zmax ip \<or> comp_z hi < zmin ip)) \<and>
   (comp_x hi = xmin ip \<and> comp_x lo \<le> xmax ip \<and>
    ymin ip \<le> comp_y hi \<and> comp_y lo \<le> ymax ip \<and>
    zmin ip \<le> comp_z hi \<and> comp_z lo \<le> zmax ip \<longrightarrow> overlapsWith ip lo hi)"
  by (auto simp: overlapsWith_def)

theorem overlapsWith_non_strict_witness:
  "comp_x left_hi = xmin unit_region \<and> comp_x left_lo \<le> xmax unit_region \<and>
   ymin unit_region \<le> comp_y left_hi \<and> comp_y left_lo \<le> ymax unit_region \<and>
   zmin unit_region \<le> comp_z left_hi \<and> comp_z left_lo \<le> zmax unit_region \<and>
   overlapsWith unit_region left_lo left_hi"
  using overlapsWith_non_strict [of unit_region left_lo left_hi]
  by (simp add: unit_region_def left_lo_def left_hi_def)

end
